theory Spec2Isabelle
  imports Complex_Main
begin

section \<open>JavaScript strings and numbers\<close>

text \<open>
  The client script of the mail manager exists in two snapshots: \<^verbatim>\<open>static/js/main.js\<close>
  (the "enhanced" script) and an older script kept without a name (\<^verbatim>\<open>unnamed/part_001\<close>).
  Both define the same function names, so the definitions taken from the older snapshot carry
  the suffix \<open>_part_001\<close>; the unsuffixed names are those of \<^verbatim>\<open>main.js\<close>.

  Strings are \<open>string\<close>. \<^verbatim>\<open>toLowerCase\<close> is modelled on the letters \<open>A\<close> to \<open>Z\<close>; the
  characters of the suffix \<^verbatim>\<open>.csv\<close> are the lower-case images of \<open>.\<close>, \<open>C\<close>, \<open>S\<close>, \<open>V\<close>
  and of themselves only.
\<close>

definition toLowerCase_char :: "char \<Rightarrow> char" where
  "toLowerCase_char c =
     (let n = (of_char c :: nat) in if 65 \<le> n \<and> n \<le> 90 then char_of (n + 32) else c)"

definition toLowerCase :: "string \<Rightarrow> string" where
  "toLowerCase s = map toLowerCase_char s"

definition endsWith :: "string \<Rightarrow> string \<Rightarrow> bool" where
  "endsWith s t = (length t \<le> length s \<and> drop (length s - length t) s = t)"

text \<open>\<^verbatim>\<open>String.prototype.includes\<close>: \<open>t\<close> occurs in \<open>s\<close> as a contiguous block.\<close>

fun includes_str :: "string \<Rightarrow> string \<Rightarrow> bool" where
  "includes_str [] t = (t = [])"
| "includes_str (c # cs) t = (take (length t) (c # cs) = t \<or> includes_str cs t)"

text \<open>
  \<^verbatim>\<open>String.prototype.trim\<close> on the ASCII white space and line terminators
  (tab, line feed, vertical tab, form feed, carriage return, space). JavaScript also strips
  the no-break space and the other Unicode white space; queries holding such characters are
  outside this model.
\<close>

definition isSpace :: "char \<Rightarrow> bool" where
  "isSpace c = ((of_char c :: nat) \<in> {9, 10, 11, 12, 13, 32})"

definition trim :: "string \<Rightarrow> string" where
  "trim s = rev (dropWhile isSpace (rev (dropWhile isSpace s)))"

text \<open>Decimal digits of a natural number, as \<^verbatim>\<open>Number.prototype.toString\<close> prints an integer.\<close>

definition digit :: "nat \<Rightarrow> char" where
  "digit d = ''0123456789'' ! (d mod 10)"

fun showNat :: "nat \<Rightarrow> string" where
  "showNat n = (if n < 10 then [digit n] else showNat (n div 10) @ [digit n])"

declare showNat.simps [simp del]

text \<open>
  A file size is a natural number of bytes. \<^verbatim>\<open>file.size / 1024 / 1024\<close> divides a double by
  powers of two, which is exact, so the quotient is the real number of the same value
  for every size below \<open>2 ^ 53\<close>, and the comparison with the limit comes out the same for
  every size. \<^verbatim>\<open>toFixed(2)\<close> prints the nearest multiple of \<open>1/100\<close>, the larger one on a
  tie, with two decimals.
\<close>

definition toFixed2 :: "real \<Rightarrow> string" where
  "toFixed2 x =
     (let n = nat \<lfloor>x * 100 + 1 / 2\<rfloor>
      in showNat (n div 100) @ ''.'' @ [digit (n div 10), digit n])"

section \<open>The page: staged file, controls, notifications, timers\<close>

text \<open>
  A \<^verbatim>\<open>File\<close> exposes its name and its size in bytes; the script reads nothing else.
\<close>

record stagedFile =
  name :: string
  sizeBytes :: nat

text \<open>
  An element matching \<^verbatim>\<open>.alert.alert-auto\<close>. \<open>aid\<close> is the identity of the DOM node
  (two elements with equal text are still two nodes); \<open>opacity\<close> is \<^verbatim>\<open>style.opacity\<close>.
\<close>

record alert =
  aid :: nat
  className :: string
  innerHTML :: string
  opacity :: string

text \<open>
  The callbacks handed to \<^verbatim>\<open>setTimeout\<close> by the two \<^verbatim>\<open>showAlert\<close> functions, each closed
  over one alert element:
  \<^item> \<open>RemoveAlert\<close>: \<^verbatim>\<open>() => alert.remove()\<close> (main.js, fade-out of a superseded or
    expired alert; also the removal that ends a manual dismissal, see \<open>closeAlert\<close>);
  \<^item> \<open>FadeIn\<close>: \<^verbatim>\<open>() => { alertDiv.style.opacity = '1'; }\<close> (main.js);
  \<^item> \<open>AutoDismiss\<close>: the auto-dismiss callback of main.js;
  \<^item> \<open>AutoRemove\<close>: the auto-dismiss callback of the older snapshot.
\<close>

datatype callback = RemoveAlert nat | FadeIn nat | AutoDismiss nat | AutoRemove nat

type_synonym timer = "nat \<times> callback"

text \<open>
  The part of the document the upload and notification code touches:
  \<^item> \<open>files\<close>: the \<^verbatim>\<open>FileList\<close> of the \<^verbatim>\<open>#csvFile\<close> input (assigning \<^verbatim>\<open>''\<close> to the value of
    a file input empties it);
  \<^item> \<open>fileInfo\<close>: the \<^verbatim>\<open>innerHTML\<close> of \<^verbatim>\<open>#fileInfo\<close>, \<open>None\<close> when the page has no such element;
  \<^item> \<open>submitBtn\<close>: the \<^verbatim>\<open>disabled\<close> flag of \<^verbatim>\<open>#submitBtn\<close>, \<open>None\<close> when absent;
  \<^item> \<open>formText\<close>: the \<^verbatim>\<open>innerHTML\<close> of the input's next sibling when that sibling exists and
    carries the class \<^verbatim>\<open>form-text\<close>, \<open>None\<close> otherwise (older snapshot only);
  \<^item> \<open>alerts\<close>: the attached elements matching \<^verbatim>\<open>.alert.alert-auto\<close>, in document order;
  \<^item> \<open>timers\<close>: the pending \<^verbatim>\<open>setTimeout\<close> callbacks with their due times (milliseconds),
    in the order they were set;
  \<^item> \<open>now\<close>: the clock; \<open>fresh\<close>: the identity the next created element gets.
\<close>

record page =
  files :: "stagedFile list"
  fileInfo :: "string option"
  submitBtn :: "bool option"
  formText :: "string option"
  alerts :: "alert list"
  timers :: "timer list"
  now :: nat
  fresh :: nat

section \<open>Transient notification channel: \<^verbatim>\<open>showAlert\<close> (main.js)\<close>

definition icons :: "(string \<times> string) list" where
  "icons =
     [(''success'', ''fas fa-check-circle''),
      (''danger'', ''fas fa-exclamation-triangle''),
      (''warning'', ''fas fa-exclamation-circle''),
      (''info'', ''fas fa-info-circle''),
      (''primary'', ''fas fa-bell'')]"

text \<open>
  \<^verbatim>\<open>icons[type] || icons.info\<close>, for the keys of the object literal. A type that names an
  inherited property of the object (\<^verbatim>\<open>constructor\<close>, \<^verbatim>\<open>toString\<close>, ...) finds that property in
  JavaScript; the script passes \<^verbatim>\<open>info\<close>, \<^verbatim>\<open>success\<close>, \<^verbatim>\<open>warning\<close> and \<^verbatim>\<open>danger\<close> only, and
  such types are outside this model.
\<close>

definition iconFor :: "string \<Rightarrow> string" where
  "iconFor type = (case map_of icons type of Some c \<Rightarrow> c | None \<Rightarrow> ''fas fa-info-circle'')"

definition alertHTML :: "string \<Rightarrow> string \<Rightarrow> string" where
  \<open>alertHTML type message =
     ''\<newline>        <i class="'' @ iconFor type @ '' me-2"></i>\<newline>        '' @ message @
     ''\<newline>        <button type="button" class="btn-close" data-bs-dismiss="alert" aria-label="Close"></button>\<newline>    ''\<close>

definition alertClass :: "string \<Rightarrow> string" where
  "alertClass type = ''alert alert-'' @ type @ '' alert-dismissible fade show alert-auto''"

text \<open>
  "Remove existing auto alerts": every attached auto alert gets opacity \<open>0\<close> and a timer
  that detaches it 300 ms later.
\<close>

definition fadeOutExisting :: "page \<Rightarrow> page" where
  "fadeOutExisting s =
     s\<lparr>alerts := map (\<lambda>a. a\<lparr>opacity := ''0''\<rparr>) (alerts s),
       timers := timers s @ map (\<lambda>a. (now s + 300, RemoveAlert (aid a))) (alerts s)\<rparr>"

text \<open>
  \<^verbatim>\<open>showAlert(message, type = 'info', duration = 5000)\<close>. The new element is appended to the
  body, hence last in document order. The returned element is the one with identity
  \<open>fresh s\<close>; no caller in the script uses it.
\<close>

definition showAlert :: "string \<Rightarrow> string \<Rightarrow> nat \<Rightarrow> page \<Rightarrow> page" where
  "showAlert message type duration s =
     (let s1 = fadeOutExisting s;
          alertDiv = \<lparr>aid = fresh s1, className = alertClass type,
                      innerHTML = alertHTML type message, opacity = ''0''\<rparr>
      in s1\<lparr>alerts := alerts s1 @ [alertDiv],
            timers := timers s1 @
              [(now s1 + 10, FadeIn (aid alertDiv)), (now s1 + duration, AutoDismiss (aid alertDiv))],
            fresh := Suc (fresh s1)\<rparr>)"

section \<open>File intake gate: \<^verbatim>\<open>validateCSVFile\<close> (main.js)\<close>

definition fileSizeMB :: "stagedFile \<Rightarrow> real" where
  "fileSizeMB f = of_nat (sizeBytes f) / 1024 / 1024"

definition fileInfoHTML :: "stagedFile \<Rightarrow> string" where
  \<open>fileInfoHTML f =
     ''\<newline>            <span class="text-success">File selected: <strong>'' @ name f @
     ''</strong> ('' @ toFixed2 (fileSizeMB f) @
     '' MB)</span><br>\<newline>            File must be in CSV format with required columns: sender, subject, body, sent_date\<newline>        ''\<close>

definition validateCSVFile :: "page \<Rightarrow> page" where
  \<open>validateCSVFile s =
     (case files s of
        [] \<Rightarrow> s
      | f # _ \<Rightarrow>
          let fileName = toLowerCase (name f); fileSize = fileSizeMB f in
          if \<not> endsWith fileName ''.csv'' then
            let s1 = s\<lparr>files := []\<rparr>;
                s2 = showAlert ''Please select a CSV file.'' ''danger'' 5000 s1;
                s3 = s2\<lparr>fileInfo :=
                       map_option (\<lambda>_. ''<span class="text-danger">Please select a CSV file.</span>'')
                         (fileInfo s2)\<rparr>
            in s3\<lparr>submitBtn := map_option (\<lambda>_. True) (submitBtn s3)\<rparr>
          else if fileSize > 100 then
            let s1 = s\<lparr>files := []\<rparr>;
                s2 = showAlert ''File size must be less than 100MB.'' ''danger'' 5000 s1;
                s3 = s2\<lparr>fileInfo :=
                       map_option (\<lambda>_. ''<span class="text-danger">File size must be less than 100MB.</span>'')
                         (fileInfo s2)\<rparr>
            in s3\<lparr>submitBtn := map_option (\<lambda>_. True) (submitBtn s3)\<rparr>
          else
            let s1 = s\<lparr>fileInfo := map_option (\<lambda>_. fileInfoHTML f) (fileInfo s)\<rparr>
            in s1\<lparr>submitBtn := map_option (\<lambda>_. False) (submitBtn s1)\<rparr>)\<close>

section \<open>The older snapshot: \<^verbatim>\<open>showAlert\<close> and \<^verbatim>\<open>validateCSVFile\<close> (part_001)\<close>

definition alertHTML_part_001 :: "string \<Rightarrow> string" where
  \<open>alertHTML_part_001 message =
     ''\<newline>        '' @ message @
     ''\<newline>        <button type="button" class="btn-close" data-bs-dismiss="alert" aria-label="Close"></button>\<newline>    ''\<close>

text \<open>
  The older \<^verbatim>\<open>showAlert\<close> detaches the existing auto alerts at once and inserts the new one
  after the navbar, or first in the body when there is none: before any other content.
  The element gets no inline style.
\<close>

definition showAlert_part_001 :: "string \<Rightarrow> string \<Rightarrow> nat \<Rightarrow> page \<Rightarrow> page" where
  "showAlert_part_001 message type duration s =
     (let s1 = s\<lparr>alerts := []\<rparr>;
          alertDiv = \<lparr>aid = fresh s1, className = alertClass type,
                      innerHTML = alertHTML_part_001 message, opacity = []\<rparr>
      in s1\<lparr>alerts := alertDiv # alerts s1,
            timers := timers s1 @ [(now s1 + duration, AutoRemove (aid alertDiv))],
            fresh := Suc (fresh s1)\<rparr>)"

definition formTextHTML :: "stagedFile \<Rightarrow> string" where
  \<open>formTextHTML f =
     ''\<newline>            File selected: <strong>'' @ name f @
     ''</strong> ('' @ toFixed2 (fileSizeMB f) @
     '' MB)<br>\<newline>            File must be in CSV format with required columns: sender, subject, body, sent_date\<newline>        ''\<close>

definition validateCSVFile_part_001 :: "page \<Rightarrow> page" where
  "validateCSVFile_part_001 s =
     (case files s of
        [] \<Rightarrow> s
      | f # _ \<Rightarrow>
          let fileName = toLowerCase (name f); fileSize = fileSizeMB f in
          if \<not> endsWith fileName ''.csv'' then
            showAlert_part_001 ''Please select a CSV file.'' ''danger'' 5000 (s\<lparr>files := []\<rparr>)
          else if fileSize > 50 then
            showAlert_part_001 ''File size must be less than 50MB.'' ''danger'' 5000 (s\<lparr>files := []\<rparr>)
          else
            s\<lparr>formText := map_option (\<lambda>_. formTextHTML f) (formText s)\<rparr>)"

section \<open>Drag-and-drop adapter: \<^verbatim>\<open>handleDrop\<close>\<close>



section \<open>Reading the validation result off a run\<close>

text \<open>
  The specification's \<open>ValidationResult\<close> carries a reason code. The script's function
  returns nothing: its result is what it does to the page. \<open>validationResult s s'\<close> reads
  the result off a run from \<open>s\<close> to \<open>s'\<close>: nothing was validated when no file was staged;
  the file was accepted when it is still staged afterwards; otherwise the reason is the one
  the newest notification states.
\<close>

datatype reasonCode = OK | BAD_EXTENSION | TOO_LARGE

definition validationResult :: "page \<Rightarrow> page \<Rightarrow> reasonCode option" where
  "validationResult s s' =
     (if files s = [] then None
      else if files s' = files s then Some OK
      else if alerts s' = [] then None
      else if innerHTML (last (alerts s')) = alertHTML ''danger'' ''Please select a CSV file.''
        then Some BAD_EXTENSION
      else if innerHTML (last (alerts s')) = alertHTML ''danger'' ''File size must be less than 100MB.''
        then Some TOO_LARGE
      else None)"

definition validate :: "page \<Rightarrow> reasonCode option" where
  "validate s = validationResult s (validateCSVFile s)"

definition validationResult_part_001 :: "page \<Rightarrow> page \<Rightarrow> reasonCode option" where
  "validationResult_part_001 s s' =
     (if files s = [] then None
      else if files s' = files s then Some OK
      else if alerts s' = [] then None
      else if innerHTML (hd (alerts s')) = alertHTML_part_001 ''Please select a CSV file.''
        then Some BAD_EXTENSION
      else if innerHTML (hd (alerts s')) = alertHTML_part_001 ''File size must be less than 50MB.''
        then Some TOO_LARGE
      else None)"

definition validate_part_001 :: "page \<Rightarrow> reasonCode option" where
  "validate_part_001 s = validationResult_part_001 s (validateCSVFile_part_001 s)"

text \<open>The notification elements the two gates create on a rejection.\<close>

definition dangerAlert :: "nat \<Rightarrow> string \<Rightarrow> alert" where
  "dangerAlert i message =
     \<lparr>aid = i, className = alertClass ''danger'', innerHTML = alertHTML ''danger'' message,
      opacity = ''0''\<rparr>"

definition dangerAlert_part_001 :: "nat \<Rightarrow> string \<Rightarrow> alert" where
  "dangerAlert_part_001 i message =
     \<lparr>aid = i, className = alertClass ''danger'', innerHTML = alertHTML_part_001 message,
      opacity = []\<rparr>"

section \<open>Concrete pages and files\<close>

text \<open>
  The upload page as first rendered: nothing staged, the info line and the help text
  empty, the submit button disabled, no notification, no timer.
\<close>

definition uploadPage :: page where
  "uploadPage =
     \<lparr>files = [], fileInfo = Some [], submitBtn = Some True, formText = Some [],
      alerts = [], timers = [], now = 0, fresh = 0\<rparr>"

definition report_csv :: stagedFile where
  "report_csv = \<lparr>name = ''report.csv'', sizeBytes = 2621440\<rparr>"

definition big_csv :: stagedFile where
  "big_csv = \<lparr>name = ''BIG.CSV'', sizeBytes = 209715200\<rparr>"

definition big_txt :: stagedFile where
  "big_txt = \<lparr>name = ''big.txt'', sizeBytes = 209715200\<rparr>"

definition notes_txt :: stagedFile where
  "notes_txt = \<lparr>name = ''notes.txt'', sizeBytes = 10\<rparr>"

section \<open>The event loop: firing timer callbacks\<close>

definition attached :: "nat \<Rightarrow> page \<Rightarrow> bool" where
  "attached i s = (i \<in> set (map aid (alerts s)))"

definition setOpacity :: "nat \<Rightarrow> string \<Rightarrow> alert list \<Rightarrow> alert list" where
  "setOpacity i v as = map (\<lambda>a. if aid a = i then a\<lparr>opacity := v\<rparr> else a) as"

definition detach :: "nat \<Rightarrow> alert list \<Rightarrow> alert list" where
  "detach i as = filter (\<lambda>a. aid a \<noteq> i) as"

text \<open>
  The bodies of the four callbacks. \<^verbatim>\<open>alertDiv.parentNode\<close> is truthy exactly while the
  element is attached; \<^verbatim>\<open>remove()\<close> on a detached element does nothing, and a style
  change on a detached element changes nothing in the document.
\<close>

fun fire :: "callback \<Rightarrow> page \<Rightarrow> page" where
  "fire (RemoveAlert i) s = s\<lparr>alerts := detach i (alerts s)\<rparr>"
| "fire (FadeIn i) s = s\<lparr>alerts := setOpacity i ''1'' (alerts s)\<rparr>"
| "fire (AutoDismiss i) s =
     (if attached i s
      then s\<lparr>alerts := setOpacity i ''0'' (alerts s),
             timers := timers s @ [(now s + 300, RemoveAlert i)]\<rparr>
      else s)"
| "fire (AutoRemove i) s =
     (if attached i s then s\<lparr>alerts := detach i (alerts s)\<rparr> else s)"

text \<open>The pending timer that is due first; among equal due times, the one set first.\<close>

fun earliest :: "timer list \<Rightarrow> timer option" where
  "earliest [] = None"
| "earliest (t # ts) =
     (case earliest ts of
        None \<Rightarrow> Some t
      | Some u \<Rightarrow> if fst u < fst t then Some u else Some t)"

fun weight :: "timer \<Rightarrow> nat" where
  "weight (d, AutoDismiss i) = 2"
| "weight (d, cb) = 1"

text \<open>
  \<open>advance T s\<close> lets the clock run to \<open>T\<close>: the callbacks due by then fire in order, each
  at its due time, including those set by callbacks that fire on the way.
\<close>

function advance :: "nat \<Rightarrow> page \<Rightarrow> page" where
  "advance T s =
     (case earliest (timers s) of
        None \<Rightarrow> s\<lparr>now := max (now s) T\<rparr>
      | Some (d, cb) \<Rightarrow>
          if T < d then s\<lparr>now := max (now s) T\<rparr>
          else advance T (fire cb (s\<lparr>now := max (now s) d, timers := remove1 (d, cb) (timers s)\<rparr>)))"
  by pat_completeness auto
termination
proof (relation "measure (\<lambda>(T, s). sum_list (map weight (timers s)))", goal_cases)
  case 1
  show ?case by simp
next
  case (2 T s t d cb)
  have earliest_mem: "earliest ts = Some u \<Longrightarrow> u \<in> set ts" for ts u
    by (induction ts arbitrary: u) (auto split: option.splits if_splits)
  have weight_remove1:
    "u \<in> set ts \<Longrightarrow> sum_list (map weight (remove1 u ts)) + weight u = sum_list (map weight ts)"
    for ts u
    by (induction ts) auto
  have weight_fire:
    "sum_list (map weight (timers (fire cb p))) < sum_list (map weight (timers p)) + weight (d, cb)"
    for p
    by (cases cb) auto
  from 2 have mem: "(d, cb) \<in> set (timers s)"
    by (simp add: earliest_mem)
  show ?case
    using weight_remove1 [OF mem]
      weight_fire [of "s\<lparr>now := max (now s) d, timers := remove1 (d, cb) (timers s)\<rparr>"]
    by simp
qed

declare advance.simps [simp del]

text \<open>
  The close control carries \<^verbatim>\<open>data-bs-dismiss="alert"\<close>, which Bootstrap handles: it
  detaches the alert at the end of the alert's fade transition, \<open>delay\<close> milliseconds after
  the click (at once, \<open>delay = 0\<close>, for an alert without transition). The alerts of
  \<^verbatim>\<open>showAlert\<close> carry the class \<^verbatim>\<open>fade\<close>, so the element stays attached during that time. The
  script registers no listener for the dismissal and keeps no handle of the timers it set
  (the value of \<^verbatim>\<open>setTimeout\<close> is discarded), so a dismissal leaves the pending timers as
  they are and adds the removal to them.
\<close>

definition closeAlert :: "nat \<Rightarrow> nat \<Rightarrow> page \<Rightarrow> page" where
  "closeAlert i delay s = s\<lparr>timers := timers s @ [(now s + delay, RemoveAlert i)]\<rparr>"

fun target :: "callback \<Rightarrow> nat" where
  "target (RemoveAlert i) = i"
| "target (FadeIn i) = i"
| "target (AutoDismiss i) = i"
| "target (AutoRemove i) = i"

text \<open>
  Element identities: every attached alert and every element a pending callback is closed
  over was created earlier than the next element will be.
\<close>

definition wellFormed :: "page \<Rightarrow> bool" where
  "wellFormed s =
     (list_all (\<lambda>a. aid a < fresh s) (alerts s) \<and>
      list_all (\<lambda>t. target (snd t) < fresh s) (timers s))"

text \<open>
  A notification with a duration of two seconds, dismissed by its close control as soon as
  it is shown: the page when the dismissal has detached the element, 300 ms later under the
  inline transition of main.js and 150 ms later in the older snapshot.
\<close>

definition dismissedPage :: page where
  "dismissedPage =
     advance 300 (closeAlert 0 300 (showAlert ''Copied to clipboard!'' ''success'' 2000 uploadPage))"

definition dismissedPage_part_001 :: page where
  "dismissedPage_part_001 =
     advance 150
       (closeAlert 0 150 (showAlert_part_001 ''Copied to clipboard!'' ''success'' 2000 uploadPage))"

text \<open>
  The invariant of the event loop behind the supersession property: up to time \<open>T\<close> the
  element \<open>n\<close> with class \<open>c\<close> and content \<open>h\<close> is attached exactly once, is opaque or still has
  its fade-in pending, no pending callback detaches it or fades it out by \<open>T\<close>, and every
  other attached alert has a removal pending that is due by \<open>T\<close>.
\<close>

definition supersedes :: "nat \<Rightarrow> nat \<Rightarrow> string \<Rightarrow> string \<Rightarrow> page \<Rightarrow> bool" where
  "supersedes T n c h s =
     ((\<exists>op. filter (\<lambda>a. aid a = n) (alerts s) =
              [\<lparr>aid = n, className = c, innerHTML = h, opacity = op\<rparr>] \<and>
            (op = ''1'' \<or> (\<exists>d\<le>T. (d, FadeIn n) \<in> set (timers s)))) \<and>
      (\<forall>t\<in>set (timers s). target (snd t) = n \<longrightarrow>
          snd t = FadeIn n \<or> (snd t = AutoDismiss n \<and> T < fst t)) \<and>
      (\<forall>i\<in>set (map aid (alerts s)). i \<noteq> n \<longrightarrow>
          (\<exists>d\<le>T. (d, RemoveAlert i) \<in> set (timers s))))"

section \<open>Submission lock: the submit listeners and \<^verbatim>\<open>setLoading\<close> (main.js)\<close>

text \<open>
  The content of an element as a tree: text nodes and elements with their tag name, their
  class attribute and their children.
\<close>

datatype node = TextNode string | Elem string string "node list"

text \<open>\<^verbatim>\<open>textContent\<close>: the text of all descendants, in document order.\<close>

fun textContent :: "node \<Rightarrow> string"
  and textContents :: "node list \<Rightarrow> string" where
  "textContent (TextNode t) = t"
| "textContent (Elem tag cls kids) = textContents kids"
| "textContents [] = []"
| "textContents (k # ks) = textContent k @ textContents ks"

text \<open>\<^verbatim>\<open>querySelector('i')\<close> finds the first \<^verbatim>\<open>i\<close> element among the descendants, in document order.\<close>

fun hasIcon :: "node \<Rightarrow> bool"
  and hasIcons :: "node list \<Rightarrow> bool" where
  "hasIcon (TextNode t) = False"
| "hasIcon (Elem tag cls kids) = (tag = ''i'' \<or> hasIcons kids)"
| "hasIcons [] = False"
| "hasIcons (k # ks) = (hasIcon k \<or> hasIcons ks)"

text \<open>\<^verbatim>\<open>icon.className = c\<close> for that first \<^verbatim>\<open>i\<close> element.\<close>

fun setIconClass :: "string \<Rightarrow> node \<Rightarrow> node"
  and setIconClasses :: "string \<Rightarrow> node list \<Rightarrow> node list" where
  "setIconClass c (TextNode t) = TextNode t"
| "setIconClass c (Elem tag cls kids) =
     (if tag = ''i'' then Elem tag c kids else Elem tag cls (setIconClasses c kids))"
| "setIconClasses c [] = []"
| "setIconClasses c (k # ks) =
     (if hasIcon k then setIconClass c k # ks else k # setIconClasses c ks)"

text \<open>
  An element handed to \<^verbatim>\<open>setLoading\<close>. \<open>dataOriginalHtml\<close> is the attribute
  \<^verbatim>\<open>data-original-html\<close>, \<open>None\<close> when the element has no such attribute; it holds the saved
  content (the markup that \<^verbatim>\<open>innerHTML\<close> serialises and parses back).
\<close>

record control =
  tagName :: string
  classList :: "string list"
  disabled :: bool
  content :: "node list"
  dataOriginalHtml :: "node list option"

text \<open>\<^verbatim>\<open>classList.add\<close> appends the token unless the list has it already.\<close>

definition classList_add :: "string \<Rightarrow> string list \<Rightarrow> string list" where
  "classList_add c cs = (if c \<in> set cs then cs else cs @ [c])"

text \<open>
  \<^verbatim>\<open>setLoading(element, loading = true)\<close>. Assigning
  \<^verbatim>\<open>'<i class="fas fa-spinner fa-spin me-2"></i>' + element.textContent\<close> to \<^verbatim>\<open>innerHTML\<close> leaves
  the spinner icon followed by the text (for a text free of markup characters).
\<close>

definition setLoading :: "control \<Rightarrow> bool \<Rightarrow> control" where
  "setLoading element loading =
     (if loading then
        let e1 = element\<lparr>classList := classList_add ''loading'' (classList element), disabled := True\<rparr>
        in if tagName e1 = ''BUTTON'' then
             let e2 = e1\<lparr>dataOriginalHtml := Some (content e1)\<rparr>
             in if hasIcons (content e2)
                then e2\<lparr>content := setIconClasses ''fas fa-spinner fa-spin me-2'' (content e2)\<rparr>
                else e2\<lparr>content :=
                       [Elem ''i'' ''fas fa-spinner fa-spin me-2'' [],
                        TextNode (textContents (content e2))]\<rparr>
           else e1
      else
        let e1 = element\<lparr>classList := removeAll ''loading'' (classList element), disabled := False\<rparr>
        in if tagName e1 = ''BUTTON'' then
             (case dataOriginalHtml e1 of
                Some h \<Rightarrow> e1\<lparr>content := h, dataOriginalHtml := None\<rparr>
              | None \<Rightarrow> e1)
           else e1)"

text \<open>
  A form of the page:
  \<^item> \<open>action\<close>: its \<^verbatim>\<open>action\<close> attribute;
  \<^item> \<open>query\<close>: the value of the \<^verbatim>\<open>input[name="q"]\<close> inside it, \<open>None\<close> when it has none;
  \<^item> \<open>submitButton\<close>: its first \<^verbatim>\<open>button[type="submit"]\<close>, \<open>None\<close> when it has none;
  \<^item> \<open>submissions\<close>: the number of times the browser has sent the form.
\<close>

record form =
  action :: string
  query :: "string option"
  submitButton :: "control option"
  submissions :: nat

text \<open>
  The submit listener of the search forms (\<^verbatim>\<open>form[action*="search"]\<close>): it cancels the event
  and warns when the query is shorter than two characters. The result says whether
  \<^verbatim>\<open>preventDefault\<close> was called.
\<close>

definition searchSubmitListener :: "form \<Rightarrow> page \<Rightarrow> bool \<times> page" where
  "searchSubmitListener f pg =
     (case query f of
        None \<Rightarrow> (False, pg)
      | Some q \<Rightarrow>
          if length (trim q) < 2
          then (True, showAlert ''Please enter at least 2 characters to search.'' ''warning'' 5000 pg)
          else (False, pg))"

text \<open>
  The submit listener attached to every form ("General form validation"). It never calls
  \<^verbatim>\<open>preventDefault\<close>.
\<close>

definition formSubmitListener :: "form \<Rightarrow> form" where
  "formSubmitListener f =
     (case submitButton f of
        None \<Rightarrow> f
      | Some b \<Rightarrow> if \<not> disabled b then f\<lparr>submitButton := Some (setLoading b True)\<rparr> else f)"

text \<open>
  A \<^verbatim>\<open>submit\<close> event on the form: the listeners run in the order they were registered (the
  search listener first, on a search form), then the browser sends the form unless a
  listener cancelled the event.
\<close>

definition submitEvent :: "form \<Rightarrow> page \<Rightarrow> form \<times> page" where
  "submitEvent f pg =
     (let (prevented, pg1) =
            (if includes_str (action f) ''search'' then searchSubmitListener f pg else (False, pg));
          f1 = formSubmitListener f
      in (if prevented then f1 else f1\<lparr>submissions := Suc (submissions f1)\<rparr>, pg1))"

text \<open>
  A click on the form's submit button. A disabled button cannot be activated (HTML
  standard), so the click fires a \<^verbatim>\<open>submit\<close> event only while the button is enabled.
\<close>

definition clickSubmitButton :: "form \<Rightarrow> page \<Rightarrow> form \<times> page" where
  "clickSubmitButton f pg =
     (case submitButton f of
        None \<Rightarrow> (f, pg)
      | Some b \<Rightarrow> if disabled b then (f, pg) else submitEvent f pg)"

text \<open>
  The \<^verbatim>\<open>keydown\<close> listener of the search input, for the Enter key:
  \<^verbatim>\<open>e.preventDefault(); this.form.submit();\<close>. \<^verbatim>\<open>form.submit()\<close> sends the form without firing
  a \<^verbatim>\<open>submit\<close> event, so no submit listener runs.
\<close>

definition enterInSearchInput :: "form \<Rightarrow> form" where
  "enterInSearchInput f =
     (case query f of None \<Rightarrow> f | Some q \<Rightarrow> f\<lparr>submissions := Suc (submissions f)\<rparr>)"

definition searchButton :: control where
  "searchButton =
     \<lparr>tagName = ''BUTTON'', classList = [''btn'', ''btn-primary''], disabled = False,
      content = [Elem ''i'' ''fas fa-search me-2'' [], TextNode ''Search''],
      dataOriginalHtml = None\<rparr>"

definition searchForm :: form where
  "searchForm =
     \<lparr>action = ''/search'', query = Some ''invoices'', submitButton = Some searchButton,
      submissions = 0\<rparr>"

definition uploadForm :: form where
  "uploadForm =
     \<lparr>action = ''/emails/upload'', query = None,
      submitButton =
        Some \<lparr>tagName = ''BUTTON'', classList = [''btn''], disabled = False,
              content = [TextNode ''Upload''], dataOriginalHtml = None\<rparr>,
      submissions = 0\<rparr>"

section \<open>Progress poller: \<^verbatim>\<open>initializeAutoRefresh\<close>\<close>

text \<open>
  What the poller reads and does:
  \<^item> \<open>pathname\<close>: \<^verbatim>\<open>window.location.pathname\<close>;
  \<^item> \<open>polling\<close>: whether the 30 s interval has been registered;
  \<^item> \<open>modalsShown\<close>: the number of elements matching \<^verbatim>\<open>.modal.show\<close>;
  \<^item> \<open>activeElement\<close>: the tag name of \<^verbatim>\<open>document.activeElement\<close>, \<open>None\<close> when it is null;
  \<^item> \<open>indicators\<close>: the number of "Refreshing..." indicators appended to the body;
  \<^item> \<open>reloadDue\<close>: the due times of the pending \<^verbatim>\<open>window.location.reload()\<close> timeouts;
  \<^item> \<open>reloads\<close>: the number of reloads performed; \<open>clock\<close>: the time in milliseconds.
\<close>

record view =
  pathname :: string
  polling :: bool
  modalsShown :: nat
  activeElement :: "string option"
  indicators :: nat
  reloadDue :: "nat list"
  reloads :: nat
  clock :: nat

definition initializeAutoRefresh :: "view \<Rightarrow> view" where
  "initializeAutoRefresh v =
     (if includes_str (pathname v) ''/approval'' then v\<lparr>polling := True\<rparr> else v)"

text \<open>The interval callback of main.js: one tick of the poller.\<close>

definition refreshTick :: "view \<Rightarrow> view" where
  "refreshTick v =
     (if modalsShown v = 0 \<and>
         (case activeElement v of
            None \<Rightarrow> True
          | Some tag \<Rightarrow> tag \<noteq> ''BUTTON'' \<and> tag \<noteq> ''INPUT'' \<and> tag \<noteq> ''TEXTAREA'')
      then v\<lparr>indicators := Suc (indicators v), reloadDue := reloadDue v @ [clock v + 1000]\<rparr>
      else v)"

definition initializeAutoRefresh_part_001 :: "view \<Rightarrow> view" where
  "initializeAutoRefresh_part_001 v =
     (if includes_str (pathname v) ''/approval'' \<and> includes_str (pathname v) ''pending''
      then v\<lparr>polling := True\<rparr> else v)"

text \<open>The interval callback of the older snapshot: it reloads at once.\<close>

definition refreshTick_part_001 :: "view \<Rightarrow> view" where
  "refreshTick_part_001 v =
     (if modalsShown v = 0 \<and>
         (case activeElement v of
            None \<Rightarrow> True
          | Some tag \<Rightarrow> tag \<noteq> ''BUTTON'' \<and> tag \<noteq> ''INPUT'')
      then v\<lparr>reloads := Suc (reloads v)\<rparr>
      else v)"

text \<open>
  The approval queue, 30 s after it was loaded, with nothing open and the focus on the
  body.
\<close>

definition approvalView :: view where
  "approvalView =
     \<lparr>pathname = ''/approval/pending'', polling = True, modalsShown = 0,
      activeElement = Some ''BODY'', indicators = 0, reloadDue = [], reloads = 0,
      clock = 30000\<rparr>"

section \<open>Properties\<close>

subsection \<open>Facts about the notification channel and the concrete inputs\<close>

lemma alertHTML_inj: "alertHTML t m = alertHTML t m' \<longleftrightarrow> m = m'"
  by (simp add: alertHTML_def)

lemma alertHTML_part_001_inj: "alertHTML_part_001 m = alertHTML_part_001 m' \<longleftrightarrow> m = m'"
  by (simp add: alertHTML_part_001_def)

lemma alerts_showAlert:
  "alerts (showAlert m t d s) =
     map (\<lambda>a. a\<lparr>opacity := ''0''\<rparr>) (alerts s) @
     [\<lparr>aid = fresh s, className = alertClass t, innerHTML = alertHTML t m, opacity = ''0''\<rparr>]"
  by (simp add: showAlert_def fadeOutExisting_def Let_def)

lemma files_showAlert: "files (showAlert m t d s) = files s"
  by (simp add: showAlert_def fadeOutExisting_def Let_def)


lemma validate_reason:
  "files s = f # r \<Longrightarrow>
   validate s =
     Some (if \<not> endsWith (toLowerCase (name f)) ''.csv'' then BAD_EXTENSION
           else if fileSizeMB f > 100 then TOO_LARGE else OK)"
  by (simp add: validate_def validationResult_def validateCSVFile_def Let_def
      alerts_showAlert files_showAlert alertHTML_inj)

lemma validate_part_001_reason:
  "files s = f # r \<Longrightarrow>
   validate_part_001 s =
     Some (if \<not> endsWith (toLowerCase (name f)) ''.csv'' then BAD_EXTENSION
           else if fileSizeMB f > 50 then TOO_LARGE else OK)"
  by (simp add: validate_part_001_def validationResult_part_001_def
      validateCSVFile_part_001_def Let_def showAlert_part_001_def alertHTML_part_001_inj)

lemma lower_names:
  "toLowerCase ''big.txt'' = ''big.txt''"
  "toLowerCase ''BIG.CSV'' = ''big.csv''"
  "toLowerCase ''report.csv'' = ''report.csv''"
  "toLowerCase ''notes.txt'' = ''notes.txt''"
  by code_simp+

lemma csv_names:
  "\<not> endsWith (toLowerCase (name big_txt)) ''.csv''"
  "endsWith (toLowerCase (name big_csv)) ''.csv''"
  "endsWith (toLowerCase (name report_csv)) ''.csv''"
  "\<not> endsWith (toLowerCase (name notes_txt)) ''.csv''"
  by (simp_all add: big_txt_def big_csv_def report_csv_def notes_txt_def lower_names endsWith_def)

lemma sizes:
  "fileSizeMB big_txt > 100" "fileSizeMB big_txt > 50"
  "fileSizeMB big_csv > 100" "fileSizeMB big_csv > 50"
  "\<not> fileSizeMB report_csv > 100" "\<not> fileSizeMB report_csv > 50"
  by (simp_all add: big_txt_def big_csv_def report_csv_def fileSizeMB_def)

subsection \<open>File intake gate\<close>

text \<open>
  C1 (as amended). A staged file whose size exceeds the maximum (100 MB in main.js, 50 MB in
  the older snapshot) is rejected and the selection cleared; the reason is \<open>TOO_LARGE\<close> when
  its lower-cased name ends in \<^verbatim>\<open>.csv\<close>, and \<open>BAD_EXTENSION\<close> when it does not, because the
  extension is checked first. For the oversized \<^verbatim>\<open>.csv\<close> file the notification is the danger
  alert about the size.
\<close>

theorem oversized_file_rejected:
  assumes "files s = f # r"
  shows "(fileSizeMB f > 100 \<longrightarrow>
            validate s =
              Some (if endsWith (toLowerCase (name f)) ''.csv'' then TOO_LARGE else BAD_EXTENSION) \<and>
            files (validateCSVFile s) = [] \<and>
            (endsWith (toLowerCase (name f)) ''.csv'' \<longrightarrow>
               alerts (validateCSVFile s) =
                 map (\<lambda>a. a\<lparr>opacity := ''0''\<rparr>) (alerts s) @
                 [dangerAlert (fresh s) ''File size must be less than 100MB.''])) \<and>
         (fileSizeMB f > 50 \<longrightarrow>
            validate_part_001 s =
              Some (if endsWith (toLowerCase (name f)) ''.csv'' then TOO_LARGE else BAD_EXTENSION) \<and>
            files (validateCSVFile_part_001 s) = [] \<and>
            (endsWith (toLowerCase (name f)) ''.csv'' \<longrightarrow>
               alerts (validateCSVFile_part_001 s) =
                 [dangerAlert_part_001 (fresh s) ''File size must be less than 50MB.'']))"
proof -
  have main: "fileSizeMB f > 100 \<Longrightarrow> files (validateCSVFile s) = []"
    using assms by (simp add: validateCSVFile_def Let_def files_showAlert)
  have old: "fileSizeMB f > 50 \<Longrightarrow> files (validateCSVFile_part_001 s) = []"
    using assms by (simp add: validateCSVFile_part_001_def Let_def showAlert_part_001_def)
  have main_alert: "fileSizeMB f > 100 \<Longrightarrow> endsWith (toLowerCase (name f)) ''.csv'' \<Longrightarrow>
      alerts (validateCSVFile s) =
        map (\<lambda>a. a\<lparr>opacity := ''0''\<rparr>) (alerts s) @
        [dangerAlert (fresh s) ''File size must be less than 100MB.'']"
    using assms by (simp add: validateCSVFile_def Let_def alerts_showAlert dangerAlert_def)
  have old_alert: "fileSizeMB f > 50 \<Longrightarrow> endsWith (toLowerCase (name f)) ''.csv'' \<Longrightarrow>
      alerts (validateCSVFile_part_001 s) =
        [dangerAlert_part_001 (fresh s) ''File size must be less than 50MB.'']"
    using assms
    by (simp add: validateCSVFile_part_001_def Let_def showAlert_part_001_def
        dangerAlert_part_001_def)
  show ?thesis
    using validate_reason [OF assms] validate_part_001_reason [OF assms]
      main old main_alert old_alert
    by simp
qed

theorem oversized_file_rejected_witness:
  "validate (uploadPage\<lparr>files := [big_csv]\<rparr>) = Some TOO_LARGE \<and>
   files (validateCSVFile (uploadPage\<lparr>files := [big_csv]\<rparr>)) = [] \<and>
   alerts (validateCSVFile (uploadPage\<lparr>files := [big_csv]\<rparr>)) =
     [dangerAlert 0 ''File size must be less than 100MB.''] \<and>
   validate_part_001 (uploadPage\<lparr>files := [big_csv]\<rparr>) = Some TOO_LARGE \<and>
   files (validateCSVFile_part_001 (uploadPage\<lparr>files := [big_csv]\<rparr>)) = [] \<and>
   alerts (validateCSVFile_part_001 (uploadPage\<lparr>files := [big_csv]\<rparr>)) =
     [dangerAlert_part_001 0 ''File size must be less than 50MB.'']"
  using oversized_file_rejected [of "uploadPage\<lparr>files := [big_csv]\<rparr>" big_csv "[]"]
    csv_names sizes
  by (simp add: uploadPage_def)

theorem oversized_txt_counterexample:
  "100 < fileSizeMB big_txt \<and>
   validate (uploadPage\<lparr>files := [big_txt]\<rparr>) = Some BAD_EXTENSION \<and>
   validate (uploadPage\<lparr>files := [big_txt]\<rparr>) \<noteq> Some TOO_LARGE \<and>
   validate_part_001 (uploadPage\<lparr>files := [big_txt]\<rparr>) \<noteq> Some TOO_LARGE"
  using validate_reason [of "uploadPage\<lparr>files := [big_txt]\<rparr>" big_txt "[]"]
    validate_part_001_reason [of "uploadPage\<lparr>files := [big_txt]\<rparr>" big_txt "[]"]
    csv_names sizes
  by simp

text \<open>
  C2. A staged file whose lower-cased name does not end in \<^verbatim>\<open>.csv\<close> is rejected with reason
  \<open>BAD_EXTENSION\<close>; the selection is cleared and the danger notification "Please select a CSV
  file." is shown (appended after the faded earlier alerts in main.js, replacing them in the
  older snapshot).
\<close>

theorem bad_extension_rejected:
  assumes "files s = f # r" and "\<not> endsWith (toLowerCase (name f)) ''.csv''"
  shows "validate s = Some BAD_EXTENSION \<and>
         files (validateCSVFile s) = [] \<and>
         alerts (validateCSVFile s) =
           map (\<lambda>a. a\<lparr>opacity := ''0''\<rparr>) (alerts s) @
           [dangerAlert (fresh s) ''Please select a CSV file.''] \<and>
         validate_part_001 s = Some BAD_EXTENSION \<and>
         files (validateCSVFile_part_001 s) = [] \<and>
         alerts (validateCSVFile_part_001 s) =
           [dangerAlert_part_001 (fresh s) ''Please select a CSV file.'']"
proof -
  have "files (validateCSVFile s) = []"
    using assms by (simp add: validateCSVFile_def Let_def files_showAlert)
  moreover have "alerts (validateCSVFile s) =
      map (\<lambda>a. a\<lparr>opacity := ''0''\<rparr>) (alerts s) @
      [dangerAlert (fresh s) ''Please select a CSV file.'']"
    using assms by (simp add: validateCSVFile_def Let_def alerts_showAlert dangerAlert_def)
  moreover have "files (validateCSVFile_part_001 s) = [] \<and>
      alerts (validateCSVFile_part_001 s) =
        [dangerAlert_part_001 (fresh s) ''Please select a CSV file.'']"
    using assms
    by (simp add: validateCSVFile_part_001_def Let_def showAlert_part_001_def
        dangerAlert_part_001_def)
  ultimately show ?thesis
    using validate_reason [OF assms(1)] validate_part_001_reason [OF assms(1)] assms(2)
    by simp
qed

theorem bad_extension_rejected_witness:
  "validate (uploadPage\<lparr>files := [notes_txt]\<rparr>) = Some BAD_EXTENSION \<and>
   files (validateCSVFile (uploadPage\<lparr>files := [notes_txt]\<rparr>)) = [] \<and>
   map className (alerts (validateCSVFile (uploadPage\<lparr>files := [notes_txt]\<rparr>))) =
     [''alert alert-danger alert-dismissible fade show alert-auto''] \<and>
   validate_part_001 (uploadPage\<lparr>files := [notes_txt]\<rparr>) = Some BAD_EXTENSION \<and>
   files (validateCSVFile_part_001 (uploadPage\<lparr>files := [notes_txt]\<rparr>)) = [] \<and>
   map className (alerts (validateCSVFile_part_001 (uploadPage\<lparr>files := [notes_txt]\<rparr>))) =
     [''alert alert-danger alert-dismissible fade show alert-auto'']"
  using bad_extension_rejected [of "uploadPage\<lparr>files := [notes_txt]\<rparr>" notes_txt "[]"]
    csv_names
  by (simp add: uploadPage_def dangerAlert_def dangerAlert_part_001_def alertClass_def)

text \<open>
  C7. The validation result is a function of the staged file alone: on any two pages whose
  first staged file is the same, the gate gives the same result (same acceptance, same
  reason), in particular when the same file is staged again after a first validation.
\<close>

theorem validate_same_file_same_result:
  assumes "files s1 = f # r1" and "files s2 = f # r2"
  shows "validate s1 = validate s2 \<and>
         validate ((validateCSVFile s1)\<lparr>files := files s1\<rparr>) = validate s1 \<and>
         validate_part_001 s1 = validate_part_001 s2 \<and>
         validate_part_001 ((validateCSVFile_part_001 s1)\<lparr>files := files s1\<rparr>) =
           validate_part_001 s1"
proof -
  have "files ((validateCSVFile s1)\<lparr>files := files s1\<rparr>) = f # r1"
    and "files ((validateCSVFile_part_001 s1)\<lparr>files := files s1\<rparr>) = f # r1"
    using assms(1) by simp_all
  then show ?thesis
    using assms by (simp add: validate_reason validate_part_001_reason)
qed

theorem validate_same_file_same_result_witness:
  "validate (uploadPage\<lparr>files := [notes_txt]\<rparr>) =
     validate (validateCSVFile (uploadPage\<lparr>files := [notes_txt, report_csv]\<rparr>)
       \<lparr>files := [notes_txt, report_csv]\<rparr>) \<and>
   validate_part_001 (uploadPage\<lparr>files := [notes_txt]\<rparr>) =
     validate_part_001 (validateCSVFile (uploadPage\<lparr>files := [notes_txt, report_csv]\<rparr>)
       \<lparr>files := [notes_txt, report_csv]\<rparr>)"
  using validate_same_file_same_result
    [of "uploadPage\<lparr>files := [notes_txt]\<rparr>" notes_txt "[]"
        "validateCSVFile (uploadPage\<lparr>files := [notes_txt, report_csv]\<rparr>)
           \<lparr>files := [notes_txt, report_csv]\<rparr>" "[report_csv]"]
  by simp

text \<open>
  C9 (as amended). A staged file that passes both checks is accepted (result \<open>OK\<close>) and stays
  staged; main.js enables the submit button when the page has one and writes the summary
  naming the file and its size into the \<^verbatim>\<open>#fileInfo\<close> element when the page has one; the older
  snapshot writes the summary into the help text below the input. Nothing else changes: no
  notification is shown and no timer is set.
\<close>

theorem valid_file_accepted:
  assumes "files s = f # r" and "endsWith (toLowerCase (name f)) ''.csv''"
  shows "(\<not> fileSizeMB f > 100 \<longrightarrow>
            validate s = Some OK \<and>
            validateCSVFile s =
              s\<lparr>fileInfo := map_option (\<lambda>_. fileInfoHTML f) (fileInfo s),
                submitBtn := map_option (\<lambda>_. False) (submitBtn s)\<rparr>) \<and>
         (\<not> fileSizeMB f > 50 \<longrightarrow>
            validate_part_001 s = Some OK \<and>
            validateCSVFile_part_001 s =
              s\<lparr>formText := map_option (\<lambda>_. formTextHTML f) (formText s)\<rparr>)"
  using validate_reason [OF assms(1)] validate_part_001_reason [OF assms(1)] assms
  by (simp add: validateCSVFile_def validateCSVFile_part_001_def Let_def)

theorem valid_file_accepted_witness:
  "validate (uploadPage\<lparr>files := [report_csv]\<rparr>) = Some OK \<and>
   submitBtn (validateCSVFile (uploadPage\<lparr>files := [report_csv]\<rparr>)) = Some False \<and>
   fileInfo (validateCSVFile (uploadPage\<lparr>files := [report_csv]\<rparr>)) =
     Some (fileInfoHTML report_csv) \<and>
   toFixed2 (fileSizeMB report_csv) = ''2.50'' \<and>
   files (validateCSVFile (uploadPage\<lparr>files := [report_csv]\<rparr>)) = [report_csv] \<and>
   validate_part_001 (uploadPage\<lparr>files := [report_csv]\<rparr>) = Some OK \<and>
   formText (validateCSVFile_part_001 (uploadPage\<lparr>files := [report_csv]\<rparr>)) =
     Some (formTextHTML report_csv)"
proof -
  have "toFixed2 (fileSizeMB report_csv) = ''2.50''"
    by (simp add: toFixed2_def fileSizeMB_def report_csv_def showNat.simps digit_def Let_def)
  then show ?thesis
    using valid_file_accepted [of "uploadPage\<lparr>files := [report_csv]\<rparr>" report_csv "[]"]
      csv_names sizes
    by (simp add: uploadPage_def)
qed

theorem valid_file_no_notification_counterexample:
  "validate (uploadPage\<lparr>files := [report_csv]\<rparr>) = Some OK \<and>
   alerts (validateCSVFile (uploadPage\<lparr>files := [report_csv]\<rparr>)) = [] \<and>
   timers (validateCSVFile (uploadPage\<lparr>files := [report_csv]\<rparr>)) = [] \<and>
   validate_part_001 (uploadPage\<lparr>files := [report_csv]\<rparr>) = Some OK \<and>
   alerts (validateCSVFile_part_001 (uploadPage\<lparr>files := [report_csv]\<rparr>)) = []"
  using validate_reason [of "uploadPage\<lparr>files := [report_csv]\<rparr>" report_csv "[]"]
    validate_part_001_reason [of "uploadPage\<lparr>files := [report_csv]\<rparr>" report_csv "[]"]
    csv_names sizes
  by (simp add: validateCSVFile_def validateCSVFile_part_001_def Let_def uploadPage_def)

text \<open>
  C10. Calling \<^verbatim>\<open>validateCSVFile\<close> while no file is staged is a no-op: the page (controls,
  notifications, timers, input) is returned unchanged, in both snapshots of the script.
\<close>

theorem validate_without_file_is_noop:
  "files s = [] \<Longrightarrow> validateCSVFile s = s \<and> validateCSVFile_part_001 s = s"
  by (simp add: validateCSVFile_def validateCSVFile_part_001_def)

theorem validate_without_file_is_noop_witness:
  "files uploadPage = [] \<and> validateCSVFile uploadPage = uploadPage \<and>
   validateCSVFile_part_001 uploadPage = uploadPage"
proof -
  have h: "files uploadPage = []" by (simp add: uploadPage_def)
  show ?thesis using h validate_without_file_is_noop [OF h] by simp
qed

subsection \<open>The event loop\<close>

lemma earliest_None: "earliest ts = None \<longleftrightarrow> ts = []"
  by (induction ts) (auto split: option.splits)

lemma earliest_mem: "earliest ts = Some t \<Longrightarrow> t \<in> set ts"
  by (induction ts arbitrary: t) (auto split: option.splits if_splits)

lemma earliest_le: "earliest ts = Some t \<Longrightarrow> u \<in> set ts \<Longrightarrow> fst t \<le> fst u"
proof (induction ts arbitrary: t)
  case Nil
  then show ?case by simp
next
  case (Cons x xs)
  show ?case
  proof (cases "earliest xs")
    case None
    with Cons.prems show ?thesis by (auto simp: earliest_None)
  next
    case (Some v)
    with Cons.prems Cons.IH [of v] show ?thesis
      by (auto split: if_splits)
  qed
qed

lemma aid_setOpacity: "map aid (setOpacity i v as) = map aid as"
  by (induction as) (auto simp: setOpacity_def)

lemma aid_detach: "set (map aid (detach i as)) = set (map aid as) - {i}"
  by (auto simp: detach_def)

lemma filter_setOpacity_other:
  "i \<noteq> n \<Longrightarrow> filter (\<lambda>a. aid a = n) (setOpacity i v as) = filter (\<lambda>a. aid a = n) as"
  by (induction as) (auto simp: setOpacity_def)

lemma filter_setOpacity_same:
  "filter (\<lambda>a. aid a = n) (setOpacity n v as) =
     map (\<lambda>a. a\<lparr>opacity := v\<rparr>) (filter (\<lambda>a. aid a = n) as)"
  by (induction as) (auto simp: setOpacity_def)

lemma filter_detach_other:
  "i \<noteq> n \<Longrightarrow> filter (\<lambda>a. aid a = n) (detach i as) = filter (\<lambda>a. aid a = n) as"
  by (induction as) (auto simp: detach_def)

lemma supersedes_final:
  assumes inv: "supersedes T n c h s" and late: "\<forall>t\<in>set (timers s). T < fst t"
  shows "alerts s = [\<lparr>aid = n, className = c, innerHTML = h, opacity = ''1''\<rparr>]"
proof -
  from inv late have only: "\<forall>a\<in>set (alerts s). aid a = n"
    unfolding supersedes_def by fastforce
  then have all: "filter (\<lambda>a. aid a = n) (alerts s) = alerts s"
    by simp
  from inv obtain op where
    one: "filter (\<lambda>a. aid a = n) (alerts s) =
            [\<lparr>aid = n, className = c, innerHTML = h, opacity = op\<rparr>]"
    and op: "op = ''1'' \<or> (\<exists>d\<le>T. (d, FadeIn n) \<in> set (timers s))"
    unfolding supersedes_def by blast
  from op late have "op = ''1''"
    by fastforce
  with one all show ?thesis by simp
qed

lemma supersedes_step:
  assumes inv: "supersedes T n c h s" and mem: "(d, cb) \<in> set (timers s)" and due: "d \<le> T"
  shows "supersedes T n c h (fire cb (s\<lparr>now := m, timers := remove1 (d, cb) (timers s)\<rparr>))"
proof -
  let ?s = "s\<lparr>now := m, timers := remove1 (d, cb) (timers s)\<rparr>"
  from inv obtain op where
    one: "filter (\<lambda>a. aid a = n) (alerts s) =
            [\<lparr>aid = n, className = c, innerHTML = h, opacity = op\<rparr>]"
    and op: "op = ''1'' \<or> (\<exists>e\<le>T. (e, FadeIn n) \<in> set (timers s))"
    and own: "\<forall>t\<in>set (timers s). target (snd t) = n \<longrightarrow>
                snd t = FadeIn n \<or> (snd t = AutoDismiss n \<and> T < fst t)"
    and others: "\<forall>i\<in>set (map aid (alerts s)). i \<noteq> n \<longrightarrow>
                (\<exists>e\<le>T. (e, RemoveAlert i) \<in> set (timers s))"
    unfolding supersedes_def by blast
  from own mem due have tgt: "target cb = n \<Longrightarrow> cb = FadeIn n"
    by fastforce
  have own': "\<forall>t\<in>set (remove1 (d, cb) (timers s)). target (snd t) = n \<longrightarrow>
                snd t = FadeIn n \<or> (snd t = AutoDismiss n \<and> T < fst t)"
    using own set_remove1_subset [of "(d, cb)" "timers s"] by blast
  show ?thesis
  proof (cases cb)
    case (RemoveAlert i)
    with tgt have ne: "i \<noteq> n" by auto
    have keep: "(e, FadeIn n) \<in> set (timers s) \<Longrightarrow>
        (e, FadeIn n) \<in> set (remove1 (d, cb) (timers s))" for e
      using RemoveAlert by simp
    have rest: "j \<noteq> i \<Longrightarrow> (e, RemoveAlert j) \<in> set (timers s) \<Longrightarrow>
        (e, RemoveAlert j) \<in> set (remove1 (d, cb) (timers s))" for j e
      using RemoveAlert by simp
    have a: "\<exists>op. filter (\<lambda>a. aid a = n) (detach i (alerts s)) =
              [\<lparr>aid = n, className = c, innerHTML = h, opacity = op\<rparr>] \<and>
            (op = ''1'' \<or> (\<exists>e\<le>T. (e, FadeIn n) \<in> set (remove1 (d, cb) (timers s))))"
      using one op keep ne by (auto simp: filter_detach_other)
    have b: "\<forall>j\<in>set (map aid (detach i (alerts s))). j \<noteq> n \<longrightarrow>
              (\<exists>e\<le>T. (e, RemoveAlert j) \<in> set (remove1 (d, cb) (timers s)))"
      using others rest unfolding aid_detach by blast
    show ?thesis
      using RemoveAlert a b own' unfolding supersedes_def by simp
  next
    case (FadeIn i)
    have rest: "(e, RemoveAlert j) \<in> set (timers s) \<Longrightarrow>
        (e, RemoveAlert j) \<in> set (remove1 (d, cb) (timers s))" for j e
      using FadeIn by simp
    have keep: "i \<noteq> n \<Longrightarrow> (e, FadeIn n) \<in> set (timers s) \<Longrightarrow>
        (e, FadeIn n) \<in> set (remove1 (d, cb) (timers s))" for e
      using FadeIn by simp
    have a: "\<exists>op. filter (\<lambda>a. aid a = n) (setOpacity i ''1'' (alerts s)) =
              [\<lparr>aid = n, className = c, innerHTML = h, opacity = op\<rparr>] \<and>
            (op = ''1'' \<or> (\<exists>e\<le>T. (e, FadeIn n) \<in> set (remove1 (d, cb) (timers s))))"
    proof (cases "i = n")
      case True
      then show ?thesis using one by (simp add: filter_setOpacity_same)
    next
      case False
      then show ?thesis using one op keep by (auto simp: filter_setOpacity_other)
    qed
    have b: "\<forall>j\<in>set (map aid (setOpacity i ''1'' (alerts s))). j \<noteq> n \<longrightarrow>
              (\<exists>e\<le>T. (e, RemoveAlert j) \<in> set (remove1 (d, cb) (timers s)))"
      using others rest unfolding aid_setOpacity by blast
    show ?thesis
      using FadeIn a b own' unfolding supersedes_def by simp
  next
    case (AutoDismiss i)
    with tgt have ne: "i \<noteq> n" by auto
    have rest: "(e, RemoveAlert j) \<in> set (timers s) \<Longrightarrow>
        (e, RemoveAlert j) \<in> set (remove1 (d, cb) (timers s))" for j e
      using AutoDismiss by simp
    have keep: "(e, FadeIn n) \<in> set (timers s) \<Longrightarrow>
        (e, FadeIn n) \<in> set (remove1 (d, cb) (timers s))" for e
      using AutoDismiss by simp
    have a0: "\<exists>op. filter (\<lambda>a. aid a = n) (alerts s) =
              [\<lparr>aid = n, className = c, innerHTML = h, opacity = op\<rparr>] \<and>
            (op = ''1'' \<or> (\<exists>e\<le>T. (e, FadeIn n) \<in> set (remove1 (d, cb) (timers s))))"
      using one op keep by auto
    have b0: "\<forall>j\<in>set (map aid (alerts s)). j \<noteq> n \<longrightarrow>
              (\<exists>e\<le>T. (e, RemoveAlert j) \<in> set (remove1 (d, cb) (timers s)))"
      using others rest by blast
    show ?thesis
    proof (cases "attached i ?s")
      case False
      then show ?thesis
        using AutoDismiss a0 b0 own' unfolding supersedes_def by simp
    next
      case True
      have a: "\<exists>op. filter (\<lambda>a. aid a = n) (setOpacity i ''0'' (alerts s)) =
                [\<lparr>aid = n, className = c, innerHTML = h, opacity = op\<rparr>] \<and>
              (op = ''1'' \<or>
               (\<exists>e\<le>T. (e, FadeIn n) \<in> set (remove1 (d, cb) (timers s) @ [(m + 300, RemoveAlert i)])))"
        using a0 ne by (auto simp: filter_setOpacity_other)
      have b: "\<forall>j\<in>set (map aid (setOpacity i ''0'' (alerts s))). j \<noteq> n \<longrightarrow>
                (\<exists>e\<le>T. (e, RemoveAlert j) \<in> set (remove1 (d, cb) (timers s) @ [(m + 300, RemoveAlert i)]))"
        using b0 unfolding aid_setOpacity by auto
      have c: "\<forall>t\<in>set (remove1 (d, cb) (timers s) @ [(m + 300, RemoveAlert i)]).
                target (snd t) = n \<longrightarrow>
                snd t = FadeIn n \<or> (snd t = AutoDismiss n \<and> T < fst t)"
        using own' ne by auto
      show ?thesis
        using AutoDismiss True a b c unfolding supersedes_def by simp
    qed
  next
    case (AutoRemove i)
    with tgt have ne: "i \<noteq> n" by auto
    have keep: "(e, FadeIn n) \<in> set (timers s) \<Longrightarrow>
        (e, FadeIn n) \<in> set (remove1 (d, cb) (timers s))" for e
      using AutoRemove by simp
    have rest: "(e, RemoveAlert j) \<in> set (timers s) \<Longrightarrow>
        (e, RemoveAlert j) \<in> set (remove1 (d, cb) (timers s))" for j e
      using AutoRemove by simp
    have a0: "\<exists>op. filter (\<lambda>a. aid a = n) (alerts s) =
              [\<lparr>aid = n, className = c, innerHTML = h, opacity = op\<rparr>] \<and>
            (op = ''1'' \<or> (\<exists>e\<le>T. (e, FadeIn n) \<in> set (remove1 (d, cb) (timers s))))"
      using one op keep by auto
    have b0: "\<forall>j\<in>set (map aid (alerts s)). j \<noteq> n \<longrightarrow>
              (\<exists>e\<le>T. (e, RemoveAlert j) \<in> set (remove1 (d, cb) (timers s)))"
      using others rest by blast
    show ?thesis
    proof (cases "attached i ?s")
      case False
      then show ?thesis
        using AutoRemove a0 b0 own' unfolding supersedes_def by simp
    next
      case True
      have a: "\<exists>op. filter (\<lambda>a. aid a = n) (detach i (alerts s)) =
                [\<lparr>aid = n, className = c, innerHTML = h, opacity = op\<rparr>] \<and>
              (op = ''1'' \<or> (\<exists>e\<le>T. (e, FadeIn n) \<in> set (remove1 (d, cb) (timers s))))"
        using a0 ne by (auto simp: filter_detach_other)
      have b: "\<forall>j\<in>set (map aid (detach i (alerts s))). j \<noteq> n \<longrightarrow>
                (\<exists>e\<le>T. (e, RemoveAlert j) \<in> set (remove1 (d, cb) (timers s)))"
        using b0 unfolding aid_detach by blast
      show ?thesis
        using AutoRemove True a b own' unfolding supersedes_def by simp
    qed
  qed
qed

lemma supersedes_advance:
  "supersedes T n c h s \<Longrightarrow>
   alerts (advance T s) = [\<lparr>aid = n, className = c, innerHTML = h, opacity = ''1''\<rparr>]"
proof (induction T s rule: advance.induct)
  case (1 T s)
  show ?case
  proof (cases "earliest (timers s)")
    case None
    then have "timers s = []" by (simp add: earliest_None)
    then have "alerts s = [\<lparr>aid = n, className = c, innerHTML = h, opacity = ''1''\<rparr>]"
      using supersedes_final [OF "1.prems"] by simp
    with None show ?thesis by (simp add: advance.simps)
  next
    case (Some t)
    obtain d cb where t: "t = (d, cb)" by (cases t)
    show ?thesis
    proof (cases "T < d")
      case True
      have "\<forall>u\<in>set (timers s). T < fst u"
        using earliest_le [OF Some] True t by fastforce
      then have "alerts s = [\<lparr>aid = n, className = c, innerHTML = h, opacity = ''1''\<rparr>]"
        using supersedes_final [OF "1.prems"] by simp
      with Some t True show ?thesis by (simp add: advance.simps)
    next
      case False
      have mem: "(d, cb) \<in> set (timers s)"
        using earliest_mem [OF Some] t by simp
      have inv': "supersedes T n c h
          (fire cb (s\<lparr>now := max (now s) d, timers := remove1 (d, cb) (timers s)\<rparr>))"
        using supersedes_step [OF "1.prems" mem] False by simp
      have "alerts (advance T
          (fire cb (s\<lparr>now := max (now s) d, timers := remove1 (d, cb) (timers s)\<rparr>))) =
          [\<lparr>aid = n, className = c, innerHTML = h, opacity = ''1''\<rparr>]"
      proof (rule "1.IH" [OF Some])
        show "(d, cb) = t" using t by simp
        show "\<not> T < d" by (rule False)
        show "supersedes T n c h
          (fire cb (s\<lparr>now := max (now s) d, timers := remove1 (d, cb) (timers s)\<rparr>))"
          by (rule inv')
      qed
      then show ?thesis
        using Some t False by (subst advance.simps) simp
    qed
  qed
qed

lemma supersedes_showAlert:
  assumes wf: "wellFormed s" and fade: "now s + 300 \<le> T" and live: "T < now s + d"
  shows "supersedes T (fresh s) (alertClass t) (alertHTML t m) (showAlert m t d s)"
proof -
  from wf have old: "\<forall>a\<in>set (alerts s). aid a < fresh s"
    and pending: "\<forall>u\<in>set (timers s). target (snd u) < fresh s"
    by (simp_all add: wellFormed_def list_all_iff)
  from old have none: "filter (\<lambda>a. aid a = fresh s) (map (\<lambda>a. a\<lparr>opacity := ''0''\<rparr>) (alerts s)) = []"
    by (induction "alerts s") (auto simp: filter_empty_conv)
  have a: "\<exists>op. filter (\<lambda>a. aid a = fresh s) (alerts (showAlert m t d s)) =
              [\<lparr>aid = fresh s, className = alertClass t, innerHTML = alertHTML t m, opacity = op\<rparr>] \<and>
            (op = ''1'' \<or> (\<exists>e\<le>T. (e, FadeIn (fresh s)) \<in> set (timers (showAlert m t d s))))"
  proof -
    have "filter (\<lambda>a. aid a = fresh s) (alerts (showAlert m t d s)) =
        [\<lparr>aid = fresh s, className = alertClass t, innerHTML = alertHTML t m, opacity = ''0''\<rparr>]"
      using none by (simp add: showAlert_def fadeOutExisting_def Let_def)
    moreover have "(now s + 10, FadeIn (fresh s)) \<in> set (timers (showAlert m t d s))"
      by (simp add: showAlert_def fadeOutExisting_def Let_def)
    moreover have "now s + 10 \<le> T"
      using fade by simp
    ultimately show ?thesis by blast
  qed
  have b: "\<forall>u\<in>set (timers (showAlert m t d s)). target (snd u) = fresh s \<longrightarrow>
              snd u = FadeIn (fresh s) \<or> (snd u = AutoDismiss (fresh s) \<and> T < fst u)"
    using old pending live
    by (auto simp: showAlert_def fadeOutExisting_def Let_def)
  have c: "\<forall>i\<in>set (map aid (alerts (showAlert m t d s))). i \<noteq> fresh s \<longrightarrow>
              (\<exists>e\<le>T. (e, RemoveAlert i) \<in> set (timers (showAlert m t d s)))"
  proof (intro ballI impI)
    fix i
    assume "i \<in> set (map aid (alerts (showAlert m t d s)))" and "i \<noteq> fresh s"
    then have "i \<in> aid ` set (alerts s)"
      by (auto simp: showAlert_def fadeOutExisting_def Let_def)
    then have "(now s + 300, RemoveAlert i) \<in> set (timers (showAlert m t d s))"
      by (auto simp: showAlert_def fadeOutExisting_def Let_def)
    with fade show "\<exists>e\<le>T. (e, RemoveAlert i) \<in> set (timers (showAlert m t d s))"
      by blast
  qed
  show ?thesis
    unfolding supersedes_def using a b c by blast
qed

lemma wellFormed_showAlert: "wellFormed s \<Longrightarrow> wellFormed (showAlert m t d s)"
  by (auto simp: wellFormed_def showAlert_def fadeOutExisting_def Let_def list_all_iff
      intro: less_SucI)

lemma now_showAlert: "now (showAlert m t d s) = now s"
  by (simp add: showAlert_def fadeOutExisting_def Let_def)

lemma fresh_showAlert: "fresh (showAlert m t d s) = Suc (fresh s)"
  by (simp add: showAlert_def fadeOutExisting_def Let_def)

lemma detach_absent: "i \<notin> set (map aid as) \<Longrightarrow> detach i as = as"
  by (induction as) (auto simp: detach_def)

lemma setOpacity_absent: "i \<notin> set (map aid as) \<Longrightarrow> setOpacity i v as = as"
  by (induction as) (auto simp: setOpacity_def)

lemma wellFormed_uploadPage: "wellFormed uploadPage"
  by (simp add: wellFormed_def uploadPage_def)

lemma fresh_fire: "fresh (fire cb s) = fresh s"
  by (cases cb) auto

lemma now_fire: "now (fire cb s) = now s"
  by (cases cb) auto

lemma wellFormed_fire:
  assumes "wellFormed s" and "target cb < fresh s"
  shows "wellFormed (fire cb s)"
proof (cases cb)
  case (RemoveAlert i)
  with assms show ?thesis by (auto simp: wellFormed_def list_all_iff detach_def)
next
  case (FadeIn i)
  with assms show ?thesis by (auto simp: wellFormed_def list_all_iff setOpacity_def)
next
  case (AutoDismiss i)
  with assms show ?thesis by (auto simp: wellFormed_def list_all_iff setOpacity_def)
next
  case (AutoRemove i)
  with assms show ?thesis by (auto simp: wellFormed_def list_all_iff detach_def)
qed

lemma wellFormed_take_timer:
  assumes "wellFormed s" and "(d, cb) \<in> set (timers s)"
  shows "wellFormed (fire cb (s\<lparr>now := m, timers := remove1 (d, cb) (timers s)\<rparr>))"
proof (rule wellFormed_fire)
  show "wellFormed (s\<lparr>now := m, timers := remove1 (d, cb) (timers s)\<rparr>)"
    using assms(1) set_remove1_subset [of "(d, cb)" "timers s"]
    by (auto simp: wellFormed_def list_all_iff)
  show "target cb < fresh (s\<lparr>now := m, timers := remove1 (d, cb) (timers s)\<rparr>)"
    using assms by (auto simp: wellFormed_def list_all_iff)
qed

lemma advance_keeps:
  "wellFormed s \<Longrightarrow>
   wellFormed (advance T s) \<and> fresh (advance T s) = fresh s \<and> now (advance T s) = max (now s) T"
proof (induction T s rule: advance.induct)
  case (1 T s)
  show ?case
  proof (cases "earliest (timers s)")
    case None
    with "1.prems" show ?thesis
      by (simp add: advance.simps wellFormed_def)
  next
    case (Some t)
    obtain d cb where t: "t = (d, cb)" by (cases t)
    show ?thesis
    proof (cases "T < d")
      case True
      with Some t "1.prems" show ?thesis
        by (simp add: advance.simps wellFormed_def)
    next
      case False
      let ?s = "fire cb (s\<lparr>now := max (now s) d, timers := remove1 (d, cb) (timers s)\<rparr>)"
      have mem: "(d, cb) \<in> set (timers s)"
        using earliest_mem [OF Some] t by simp
      have wf: "wellFormed ?s"
        by (rule wellFormed_take_timer [OF "1.prems" mem])
      have ih: "wellFormed (advance T ?s) \<and> fresh (advance T ?s) = fresh ?s \<and>
          now (advance T ?s) = max (now ?s) T"
      proof (rule "1.IH" [OF Some])
        show "(d, cb) = t" using t by simp
        show "\<not> T < d" by (rule False)
        show "wellFormed ?s" by (rule wf)
      qed
      have step: "advance T s = advance T ?s"
        using Some t False by (subst advance.simps) simp
      show ?thesis
        using ih False unfolding step by (simp add: fresh_fire now_fire)
    qed
  qed
qed

subsection \<open>Transient notification channel\<close>

text \<open>
  C4 (as amended). After two calls of \<^verbatim>\<open>showAlert\<close> in succession (at once, or with the
  second call at any later time \<open>U\<close>), once the 300 ms fade-out of the superseded alerts has
  run and before the second alert's own expiry, exactly one auto notification element is
  attached: the second call's, fully opaque. In the older snapshot the supersession is
  immediate: right after the second call exactly the second call's element is attached.
\<close>

theorem second_alert_supersedes:
  assumes "wellFormed s" and "now s \<le> U" and "U + 300 \<le> T" and "T < U + d2"
  shows "alerts (advance T (showAlert m2 t2 d2 (advance U (showAlert m1 t1 d1 s)))) =
           [\<lparr>aid = Suc (fresh s), className = alertClass t2, innerHTML = alertHTML t2 m2,
             opacity = ''1''\<rparr>] \<and>
         (U = now s \<longrightarrow>
            alerts (advance T (showAlert m2 t2 d2 (showAlert m1 t1 d1 s))) =
              [\<lparr>aid = Suc (fresh s), className = alertClass t2, innerHTML = alertHTML t2 m2,
                opacity = ''1''\<rparr>]) \<and>
         alerts (showAlert_part_001 m2 t2 d2 (showAlert_part_001 m1 t1 d1 s)) =
           [\<lparr>aid = Suc (fresh s), className = alertClass t2,
             innerHTML = alertHTML_part_001 m2, opacity = []\<rparr>]"
proof -
  let ?s1 = "showAlert m1 t1 d1 s"
  let ?s1' = "advance U ?s1"
  have wf1: "wellFormed ?s1"
    using assms(1) by (rule wellFormed_showAlert)
  have later: "wellFormed ?s1' \<and> fresh ?s1' = Suc (fresh s) \<and> now ?s1' = U"
    using advance_keeps [OF wf1, of U] assms(2) by (simp add: fresh_showAlert now_showAlert)
  have "supersedes T (fresh ?s1') (alertClass t2) (alertHTML t2 m2) (showAlert m2 t2 d2 ?s1')"
    using later assms(3,4) by (intro supersedes_showAlert) simp_all
  then have delayed: "alerts (advance T (showAlert m2 t2 d2 ?s1')) =
      [\<lparr>aid = Suc (fresh s), className = alertClass t2, innerHTML = alertHTML t2 m2,
        opacity = ''1''\<rparr>]"
    using supersedes_advance [of T "fresh ?s1'"] later by simp
  have at_once: "alerts (advance T (showAlert m2 t2 d2 ?s1)) =
      [\<lparr>aid = Suc (fresh s), className = alertClass t2, innerHTML = alertHTML t2 m2,
        opacity = ''1''\<rparr>]" if "U = now s"
  proof -
    have "supersedes T (fresh ?s1) (alertClass t2) (alertHTML t2 m2) (showAlert m2 t2 d2 ?s1)"
      using wf1 assms(3,4) that by (intro supersedes_showAlert) (simp_all add: now_showAlert)
    then show ?thesis
      using supersedes_advance [of T "fresh ?s1"] by (simp add: fresh_showAlert)
  qed
  have older: "alerts (showAlert_part_001 m2 t2 d2 (showAlert_part_001 m1 t1 d1 s)) =
      [\<lparr>aid = Suc (fresh s), className = alertClass t2,
        innerHTML = alertHTML_part_001 m2, opacity = []\<rparr>]"
    by (simp add: showAlert_part_001_def Let_def)
  show ?thesis
    using delayed at_once older by simp
qed

theorem second_alert_supersedes_witness:
  "map innerHTML
     (alerts (advance 400 (showAlert ''second'' ''info'' 5000
        (advance 100 (showAlert ''first'' ''info'' 5000 uploadPage))))) = [alertHTML ''info'' ''second''] \<and>
   map innerHTML
     (alerts (advance 300 (showAlert ''second'' ''info'' 5000
        (showAlert ''first'' ''info'' 5000 uploadPage)))) = [alertHTML ''info'' ''second''] \<and>
   map innerHTML
     (alerts (showAlert_part_001 ''second'' ''info'' 5000
        (showAlert_part_001 ''first'' ''info'' 5000 uploadPage))) = [alertHTML_part_001 ''second'']"
proof -
  have "now uploadPage \<le> 100" and "(100::nat) + 300 \<le> 400" and "(400::nat) < 100 + 5000"
    and "now uploadPage \<le> 0" and "(0::nat) + 300 \<le> 300" and "(300::nat) < 0 + 5000"
    and "0 = now uploadPage"
    by (simp_all add: uploadPage_def)
  then show ?thesis
    using second_alert_supersedes [OF wellFormed_uploadPage, of 100 400 5000
        "''second''" "''info''" "''first''" "''info''" 5000]
      second_alert_supersedes [OF wellFormed_uploadPage, of 0 300 5000
        "''second''" "''info''" "''first''" "''info''" 5000]
    by simp
qed

theorem second_alert_counterexample:
  "map innerHTML
     (alerts (showAlert ''second'' ''info'' 5000 (showAlert ''first'' ''info'' 5000 uploadPage))) =
     [alertHTML ''info'' ''first'', alertHTML ''info'' ''second''] \<and>
   map opacity
     (alerts (advance 10
        (showAlert ''second'' ''info'' 5000 (showAlert ''first'' ''info'' 5000 uploadPage)))) =
     [''1'', ''1'']"
  by (simp add: uploadPage_def showAlert_def fadeOutExisting_def Let_def advance.simps
      setOpacity_def detach_def attached_def)

text \<open>
  C8 (as amended). Manual dismissal cancels no timer. Once the notification is detached,
  each pending callback closed over it leaves the page exactly as it is when it fires: the
  auto-expiry callbacks test \<^verbatim>\<open>parentNode\<close> first, and a removal or a style change of a
  detached element changes nothing.
\<close>

theorem detached_alert_callbacks_harmless:
  assumes "\<not> attached i s" and "target cb = i"
  shows "fire cb s = s"
proof (cases cb)
  case (RemoveAlert j)
  with assms show ?thesis by (simp add: attached_def detach_absent)
next
  case (FadeIn j)
  with assms show ?thesis by (simp add: attached_def setOpacity_absent)
next
  case (AutoDismiss j)
  with assms show ?thesis by simp
next
  case (AutoRemove j)
  with assms show ?thesis by simp
qed

theorem detached_alert_callbacks_harmless_witness:
  "\<not> attached 0 dismissedPage \<and> target (AutoDismiss 0) = 0 \<and>
   (2000, AutoDismiss 0) \<in> set (timers dismissedPage) \<and>
   fire (AutoDismiss 0) dismissedPage = dismissedPage"
proof -
  have gone: "\<not> attached 0 dismissedPage"
    by (simp add: dismissedPage_def uploadPage_def showAlert_def fadeOutExisting_def Let_def
        advance.simps setOpacity_def detach_def attached_def closeAlert_def)
  have pending: "(2000, AutoDismiss 0) \<in> set (timers dismissedPage)"
    by (simp add: dismissedPage_def uploadPage_def showAlert_def fadeOutExisting_def Let_def
        advance.simps setOpacity_def detach_def attached_def closeAlert_def)
  have tgt: "target (AutoDismiss 0) = 0"
    by simp
  show ?thesis
    using gone pending tgt detached_alert_callbacks_harmless [OF gone tgt]
    by simp
qed

theorem dismissed_alert_timer_pending_counterexample:
  "timers (closeAlert 0 300 (showAlert ''Copied to clipboard!'' ''success'' 2000 uploadPage)) =
     [(10, FadeIn 0), (2000, AutoDismiss 0), (300, RemoveAlert 0)] \<and>
   alerts dismissedPage = [] \<and>
   timers dismissedPage = [(2000, AutoDismiss 0)] \<and>
   alerts dismissedPage_part_001 = [] \<and>
   timers dismissedPage_part_001 = [(2000, AutoRemove 0)]"
  by (simp add: dismissedPage_def dismissedPage_part_001_def uploadPage_def showAlert_def
      showAlert_part_001_def fadeOutExisting_def Let_def advance.simps setOpacity_def
      detach_def attached_def closeAlert_def)

subsection \<open>Drag-and-drop adapter\<close>







subsection \<open>Submission lock\<close>

lemma disabled_setLoading: "disabled (setLoading b True)"
  by (simp add: setLoading_def Let_def)

lemma loading_setLoading: "''loading'' \<in> set (classList (setLoading b True))"
  by (simp add: setLoading_def Let_def classList_add_def)

lemma not_search_upload: "\<not> includes_str (action uploadForm) ''search''"
  by (simp add: uploadForm_def)

text \<open>
  C3 (as amended). The first submit event on a form whose submit button is enabled acquires
  the lock: the button becomes disabled and gets the class \<^verbatim>\<open>loading\<close>. While the lock is held
  the submit listener changes nothing, and a click on the locked button sends nothing. The
  listener itself never cancels a submit event: on a form that is not a search form every
  submit event that reaches the form is sent, whether the lock is held or not.
\<close>

theorem submission_lock:
  assumes "submitButton f = Some b"
  shows "(\<not> disabled b \<longrightarrow>
            submitButton (formSubmitListener f) = Some (setLoading b True) \<and>
            disabled (setLoading b True) \<and>
            ''loading'' \<in> set (classList (setLoading b True))) \<and>
         (disabled b \<longrightarrow> formSubmitListener f = f \<and> clickSubmitButton f pg = (f, pg)) \<and>
         (\<not> includes_str (action f) ''search'' \<longrightarrow>
            submissions (fst (submitEvent f pg)) = Suc (submissions f))"
proof -
  have sent: "submissions (formSubmitListener f) = submissions f"
    using assms by (simp add: formSubmitListener_def)
  show ?thesis
    using assms sent disabled_setLoading [of b] loading_setLoading [of b]
    by (simp add: formSubmitListener_def clickSubmitButton_def submitEvent_def)
qed

theorem submission_lock_witness:
  "map_option disabled (submitButton (formSubmitListener uploadForm)) = Some True \<and>
   submissions (fst (submitEvent uploadForm uploadPage)) = 1 \<and>
   formSubmitListener (formSubmitListener uploadForm) = formSubmitListener uploadForm \<and>
   clickSubmitButton (formSubmitListener uploadForm) uploadPage =
     (formSubmitListener uploadForm, uploadPage)"
proof -
  obtain b where b: "submitButton uploadForm = Some b" and en: "\<not> disabled b"
    by (simp add: uploadForm_def)
  have locked: "submitButton (formSubmitListener uploadForm) = Some (setLoading b True)"
    using submission_lock [OF b, of uploadPage] en by simp
  have same: "action (formSubmitListener uploadForm) = action uploadForm"
    using b by (simp add: formSubmitListener_def)
  show ?thesis
    using submission_lock [OF b, of uploadPage] en not_search_upload
      submission_lock [OF locked, of uploadPage] disabled_setLoading [of b]
    by (simp add: uploadForm_def)
qed

theorem locked_form_sent_again_counterexample:
  "map_option disabled (submitButton (fst (clickSubmitButton searchForm uploadPage))) = Some True \<and>
   submissions (fst (clickSubmitButton searchForm uploadPage)) = 1 \<and>
   submissions (enterInSearchInput (fst (clickSubmitButton searchForm uploadPage))) = 2 \<and>
   map_option disabled (submitButton (fst (submitEvent uploadForm uploadPage))) = Some True \<and>
   submissions (fst (submitEvent (fst (submitEvent uploadForm uploadPage)) uploadPage)) = 2"
proof -
  have trimmed: "trim ''invoices'' = ''invoices''"
    by code_simp
  show ?thesis
    by (simp add: searchForm_def searchButton_def uploadForm_def clickSubmitButton_def
        submitEvent_def searchSubmitListener_def formSubmitListener_def setLoading_def
        enterInSearchInput_def classList_add_def trimmed Let_def)
qed

subsection \<open>Progress poller\<close>

lemma refreshTick_skips:
  "0 < modalsShown v \<or> activeElement v = Some ''BUTTON'' \<or> activeElement v = Some ''INPUT'' \<or>
   activeElement v = Some ''TEXTAREA'' \<Longrightarrow> refreshTick v = v"
  by (auto simp: refreshTick_def)

lemma refreshTick_part_001_skips:
  "0 < modalsShown v \<or> activeElement v = Some ''BUTTON'' \<or> activeElement v = Some ''INPUT''
   \<Longrightarrow> refreshTick_part_001 v = v"
  by (auto simp: refreshTick_part_001_def)

lemma refreshTick_resumes:
  "modalsShown v = 0 \<Longrightarrow> activeElement v = Some ''BODY'' \<Longrightarrow>
   refreshTick v = v\<lparr>indicators := Suc (indicators v), reloadDue := reloadDue v @ [clock v + 1000]\<rparr> \<and>
   refreshTick_part_001 v = v\<lparr>reloads := Suc (reloads v)\<rparr>"
  by (simp add: refreshTick_def refreshTick_part_001_def)

text \<open>
  C5. The claim is that a tick is skipped whenever a modal dialog is open or an input or
  control holds the focus. The tick tests the tag name of the focused element against
  \<^verbatim>\<open>BUTTON\<close>, \<^verbatim>\<open>INPUT\<close> and \<^verbatim>\<open>TEXTAREA\<close> only (\<^verbatim>\<open>BUTTON\<close> and \<^verbatim>\<open>INPUT\<close> in the older snapshot).
  With no modal open and the focus in a \<^verbatim>\<open>select\<close> control the tick of main.js shows the
  indicator and schedules the reload one second later; the older snapshot reloads at once,
  also with the focus in a \<^verbatim>\<open>textarea\<close>.
\<close>

theorem focused_select_tick_reloads:
  "refreshTick (approvalView\<lparr>activeElement := Some ''SELECT''\<rparr>) =
     approvalView\<lparr>activeElement := Some ''SELECT'', indicators := 1, reloadDue := [31000]\<rparr> \<and>
   reloads (refreshTick_part_001 (approvalView\<lparr>activeElement := Some ''SELECT''\<rparr>)) = 1 \<and>
   reloads (refreshTick_part_001 (approvalView\<lparr>activeElement := Some ''TEXTAREA''\<rparr>)) = 1"
  by (simp add: refreshTick_def refreshTick_part_001_def approvalView_def)

end
